theory Spec2Isabelle
  imports Complex_Main "HOL-Library.Word" "HOL-Library.AList"
begin

unbundle bit_operations_syntax

section \<open>Bytes, errors and the 32-bit header fields (src/lib.js)\<close>

text \<open>
  A \<open>Uint8Array\<close> is a list of 8-bit words; lengths and offsets are JavaScript numbers
  that are always non-negative integers here, so they are \<open>nat\<close>. A thrown exception or
  a rejected promise is the \<open>Inl\<close> branch of a sum.
\<close>

type_synonym byte = "8 word"
type_synonym Uint8Array = "byte list"

text \<open>
  The values that cross the wire, as the serializer sees them. Numbers are restricted to
  the integers (ids, type tags and callback handles are integers); an object is the list
  of its own properties in insertion order.
\<close>

datatype jsval =
    JUndefined
  | JNull
  | JBool bool
  | JNum int
  | JStr string
  | JBytes Uint8Array
  | JArr "jsval list"
  | JObj "(string \<times> jsval) list"

text \<open>
  \<open>RPCError message stack\<close> is the class \<open>RPCError\<close> of lib.js: \<open>stack = None\<close> means the
  constructor kept the stack of the local throw site. \<open>Thrown\<close> is any other value a
  collaborator throws or passes to \<open>reject\<close>.
\<close>

datatype error =
    RangeError string
  | TypeError string
  | Error string
  | RPCError jsval "jsval option"
  | OperationError
  | Thrown jsval

definition HEADER_CHECK :: nat where
  "HEADER_CHECK = 0xb1f7705f"

text \<open>
  \<open>readUInt32LE\<close>: the four bytes are combined with the 32-bit operators \<open>|\<close> and \<open><<\<close>, and
  \<open>>>> 0\<close> reads the 32-bit result as unsigned.
\<close>

definition readUInt32LE :: "Uint8Array \<Rightarrow> nat \<Rightarrow> error + nat" where
  "readUInt32LE buffer offset =
     (if offset + 4 > length buffer then Inl (RangeError ''Reading out of bounds'')
      else Inr (unat
        (((ucast (buffer ! offset) AND 0xff)
          OR push_bit 8 ((ucast (buffer ! (offset + 1))) AND 0xff)
          OR push_bit 16 ((ucast (buffer ! (offset + 2))) AND 0xff)
          OR push_bit 24 ((ucast (buffer ! (offset + 3))) AND 0xff)) :: 32 word)))"

text \<open>
  \<open>writeUInt32LE\<close>: \<open>&\<close> and \<open>>>\<close> first convert \<open>value\<close> to a signed 32-bit integer
  (\<open>word_of_nat\<close> wraps modulo \<open>2 ^ 32\<close>), \<open>>>\<close> is the arithmetic shift, and the store
  into the \<open>Uint8Array\<close> keeps the low 8 bits.
\<close>

definition writeUInt32LE :: "Uint8Array \<Rightarrow> nat \<Rightarrow> nat \<Rightarrow> error + Uint8Array" where
  "writeUInt32LE buffer val offset =
     (if offset + 4 > length buffer then Inl (RangeError ''Writing out of bounds'')
      else
        let v = (word_of_nat val :: 32 word);
            buffer = buffer[offset := ucast (v AND 0xff)];
            buffer = buffer[offset + 1 := ucast (signed_drop_bit 8 v AND 0xff)];
            buffer = buffer[offset + 2 := ucast (signed_drop_bit 16 v AND 0xff)];
            buffer = buffer[offset + 3 := ucast (signed_drop_bit 24 v AND 0xff)]
        in Inr buffer)"

definition Uint8Array_concat :: "Uint8Array list \<Rightarrow> Uint8Array" where
  "Uint8Array_concat buffers = concat buffers"

section \<open>The cipher layer\<close>

text \<open>
  \<open>crypto.subtle\<close> is a collaborator of the repository, so its operations are parameters
  of the model: a record of functions, one per call the code makes. A \<open>CryptoKey\<close> is an
  opaque handle; here it is the algorithm name and the key bits.
\<close>

datatype CryptoKey = CryptoKey string Uint8Array

record Pbkdf2Params =
  pbkdf2_name :: string
  pbkdf2_salt :: Uint8Array
  pbkdf2_iterations :: nat
  pbkdf2_hash :: string

record AesGcmParams =
  aes_name :: string
  aes_iv :: Uint8Array

record subtle =
  subtle_importKey :: "string \<Rightarrow> Uint8Array \<Rightarrow> string \<Rightarrow> CryptoKey"
  subtle_digest :: "string \<Rightarrow> Uint8Array \<Rightarrow> Uint8Array"
  subtle_deriveKey :: "Pbkdf2Params \<Rightarrow> CryptoKey \<Rightarrow> string \<times> nat \<Rightarrow> CryptoKey"
  subtle_deriveBits :: "Pbkdf2Params \<Rightarrow> CryptoKey \<Rightarrow> nat \<Rightarrow> Uint8Array"
  subtle_encrypt :: "AesGcmParams \<Rightarrow> CryptoKey \<Rightarrow> Uint8Array \<Rightarrow> Uint8Array"
  subtle_decrypt :: "AesGcmParams \<Rightarrow> CryptoKey \<Rightarrow> Uint8Array \<Rightarrow> error + Uint8Array"

definition JS_RPC_WITH_CRYPTO :: bool where
  "JS_RPC_WITH_CRYPTO = True"

text \<open>
  A JavaScript string is modelled by its UTF-8 bytes, so \<open>TextEncoder.encode\<close> only
  changes the element type.
\<close>

definition TextEncoder_encode :: "string \<Rightarrow> Uint8Array" where
  "TextEncoder_encode s = map (\<lambda>c. word_of_nat (of_char c)) s"

text \<open>\<open>buildKeyIv\<close>: \<open>!password\<close> holds exactly for the empty string.\<close>

definition buildKeyIv ::
  "subtle \<Rightarrow> string \<Rightarrow> nat \<Rightarrow> CryptoKey option \<times> Uint8Array option" where
  "buildKeyIv crypto password iterations =
     (if \<not> JS_RPC_WITH_CRYPTO then (None, None)
      else if password = [] then (None, None)
      else
        let keyMaterial = subtle_importKey crypto ''raw'' (TextEncoder_encode password) ''PBKDF2'';
            salt = subtle_digest crypto ''SHA-512'' (TextEncoder_encode password);
            pbkdf2Params = \<lparr>pbkdf2_name = ''PBKDF2'', pbkdf2_salt = salt,
              pbkdf2_iterations = iterations, pbkdf2_hash = ''SHA-256''\<rparr>;
            key = subtle_deriveKey crypto pbkdf2Params keyMaterial (''AES-GCM'', 256);
            iv = subtle_deriveBits crypto pbkdf2Params keyMaterial 256
        in (Some key, Some iv))"

text \<open>
  \<open>encrypt\<close> and \<open>decrypt\<close>: with no key the data is returned as it is. With a key,
  the algorithm object is \<open>{name: 'AES-GCM', iv: iv}\<close>; WebCrypto rejects it with a
  \<open>TypeError\<close> when \<open>iv\<close> is \<open>null\<close>.
\<close>

definition encrypt ::
  "subtle \<Rightarrow> Uint8Array \<Rightarrow> CryptoKey option \<Rightarrow> Uint8Array option \<Rightarrow> error + Uint8Array" where
  "encrypt crypto data key iv =
     (if \<not> JS_RPC_WITH_CRYPTO then Inr data
      else case key of
        None \<Rightarrow> Inr data
      | Some k \<Rightarrow>
          (case iv of
             None \<Rightarrow> Inl (TypeError ''iv is not a BufferSource'')
           | Some b \<Rightarrow> Inr (subtle_encrypt crypto \<lparr>aes_name = ''AES-GCM'', aes_iv = b\<rparr> k data)))"

definition decrypt ::
  "subtle \<Rightarrow> Uint8Array \<Rightarrow> CryptoKey option \<Rightarrow> Uint8Array option \<Rightarrow> error + Uint8Array" where
  "decrypt crypto data key iv =
     (if \<not> JS_RPC_WITH_CRYPTO then Inr data
      else case key of
        None \<Rightarrow> Inr data
      | Some k \<Rightarrow>
          (case iv of
             None \<Rightarrow> Inl (TypeError ''iv is not a BufferSource'')
           | Some b \<Rightarrow> subtle_decrypt crypto \<lparr>aes_name = ''AES-GCM'', aes_iv = b\<rparr> k data))"

section \<open>Frame codec\<close>

text \<open>
  \<open>buildBufferData\<close>: for each record of the queue an 8-byte header (length of the
  encrypted record, then \<open>HEADER_CHECK\<close>, both little-endian) followed by the record.
\<close>

definition buildHeader :: "nat \<Rightarrow> error + Uint8Array" where
  "buildHeader len =
     (case writeUInt32LE (replicate 8 0) len 0 of
        Inl e \<Rightarrow> Inl e
      | Inr header \<Rightarrow> writeUInt32LE header HEADER_CHECK 4)"

fun buildBufferData_loop ::
  "subtle \<Rightarrow> Uint8Array list \<Rightarrow> CryptoKey option \<Rightarrow> Uint8Array option \<Rightarrow> Uint8Array list
     \<Rightarrow> error + Uint8Array list" where
  "buildBufferData_loop crypto [] key iv buffers = Inr buffers"
| "buildBufferData_loop crypto (data # queue) key iv buffers =
     (case encrypt crypto data key iv of
        Inl e \<Rightarrow> Inl e
      | Inr buffer \<Rightarrow>
          (case buildHeader (length buffer) of
             Inl e \<Rightarrow> Inl e
           | Inr header \<Rightarrow> buildBufferData_loop crypto queue key iv (buffers @ [header, buffer])))"

definition buildBufferData ::
  "subtle \<Rightarrow> Uint8Array list \<Rightarrow> CryptoKey option \<Rightarrow> Uint8Array option \<Rightarrow> error + Uint8Array" where
  "buildBufferData crypto queue key iv =
     (case buildBufferData_loop crypto queue key iv [] of
        Inl e \<Rightarrow> Inl e
      | Inr buffers \<Rightarrow> Inr (Uint8Array_concat buffers))"

text \<open>
  \<open>parseBufferData\<close>: the \<open>while\<close> loop over \<open>offset\<close>, every \<open>break\<close> a return. The result
  is the queue of decoded records, the bytes kept for the next chunk, and the lines
  written with \<open>console.error\<close> (the \<open>bufferLength\<close> and \<open>headerCheck\<close> of a failed check).
\<close>

datatype console_line = DataCheckError nat nat

function parseBufferData_loop ::
  "subtle \<Rightarrow> Uint8Array \<Rightarrow> CryptoKey option \<Rightarrow> Uint8Array option \<Rightarrow> nat \<Rightarrow> Uint8Array list
     \<Rightarrow> error + (Uint8Array list \<times> Uint8Array \<times> console_line list)" where
  "parseBufferData_loop crypto buffer key iv offset queue =
     (if \<not> offset < length buffer then Inr (queue, [], [])
      else if offset + 8 > length buffer then Inr (queue, drop offset buffer, [])
      else
        case readUInt32LE buffer offset of
          Inl e \<Rightarrow> Inl e
        | Inr bufferLength \<Rightarrow>
            (case readUInt32LE buffer (offset + 4) of
               Inl e \<Rightarrow> Inl e
             | Inr headerCheck \<Rightarrow>
                 if offset + 8 + bufferLength > length buffer
                 then Inr (queue, drop (offset + 8 - 8) buffer, [])
                 else if HEADER_CHECK \<noteq> headerCheck
                 then Inr (queue, [], [DataCheckError bufferLength headerCheck])
                 else
                   (case decrypt crypto (take bufferLength (drop (offset + 8) buffer)) key iv of
                      Inl e \<Rightarrow> Inl e
                    | Inr buf \<Rightarrow>
                        parseBufferData_loop crypto buffer key iv (offset + 8 + bufferLength)
                          (queue @ [buf]))))"
  by pat_completeness auto
termination
  by (relation "measure (\<lambda>(crypto, buffer, key, iv, offset, queue). length buffer - offset)") auto

declare parseBufferData_loop.simps [simp del]

definition parseBufferData ::
  "subtle \<Rightarrow> Uint8Array \<Rightarrow> CryptoKey option \<Rightarrow> Uint8Array option
     \<Rightarrow> error + (Uint8Array list \<times> Uint8Array \<times> console_line list)" where
  "parseBufferData crypto buffer key iv = parseBufferData_loop crypto buffer key iv 0 []"

text \<open>
  \<open>createEncodeStream\<close> frames every chunk on its own; \<open>createDecodeStream\<close> keeps the
  carry \<open>last\<close> (here \<open>last'\<close>) between chunks and enqueues the records of each chunk in order. A
  rejected \<open>transform\<close> errors the stream, so the run over the chunks stops there.
\<close>

fun createEncodeStream_run ::
  "subtle \<Rightarrow> CryptoKey option \<Rightarrow> Uint8Array option \<Rightarrow> Uint8Array list \<Rightarrow> error + Uint8Array list" where
  "createEncodeStream_run crypto key iv [] = Inr []"
| "createEncodeStream_run crypto key iv (chunk # chunks) =
     (case buildBufferData crypto [chunk] key iv of
        Inl e \<Rightarrow> Inl e
      | Inr buffer \<Rightarrow>
          (case createEncodeStream_run crypto key iv chunks of
             Inl e \<Rightarrow> Inl e
           | Inr out \<Rightarrow> Inr (buffer # out)))"

fun createDecodeStream_run ::
  "subtle \<Rightarrow> CryptoKey option \<Rightarrow> Uint8Array option \<Rightarrow> Uint8Array \<Rightarrow> Uint8Array list
     \<Rightarrow> Uint8Array list \<Rightarrow> error + (Uint8Array list \<times> Uint8Array)" where
  "createDecodeStream_run crypto key iv last' [] enqueued = Inr (enqueued, last')"
| "createDecodeStream_run crypto key iv last' (chunk # chunks) enqueued =
     (case parseBufferData crypto (Uint8Array_concat [last', chunk]) key iv of
        Inl e \<Rightarrow> Inl e
      | Inr (queueReceive, remain, console) \<Rightarrow>
          createDecodeStream_run crypto key iv remain chunks (enqueued @ queueReceive))"

definition createDecodeStream ::
  "subtle \<Rightarrow> CryptoKey option \<Rightarrow> Uint8Array option \<Rightarrow> Uint8Array list
     \<Rightarrow> error + (Uint8Array list \<times> Uint8Array)" where
  "createDecodeStream crypto key iv chunks = createDecodeStream_run crypto key iv [] chunks []"

text \<open>
  Both \<open>createRpcServerHelper\<close> and \<open>createRpcClientHelper\<close> derive the cipher state of
  their pipeline with \<open>buildKeyIv(param.rpcKey, 10)\<close>.
\<close>

definition rpc_key_iv :: "subtle \<Rightarrow> string \<Rightarrow> CryptoKey option \<times> Uint8Array option" where
  "rpc_key_iv crypto rpcKey = buildKeyIv crypto rpcKey 10"

text \<open>
  A stand-in for \<open>crypto.subtle\<close> for the runs that need a concrete collaborator: it
  derives a zero buffer of the requested bit length, and its cipher puts the iv it is
  given in front of the data, so that a ciphertext shows which iv the caller passed.
  With no key (\<open>rpcKey = ''\<close>) none of its operations is called.
\<close>

definition stub_subtle :: subtle where
  "stub_subtle = \<lparr>subtle_importKey = (\<lambda>format keyData algorithm. CryptoKey algorithm keyData),
     subtle_digest = (\<lambda>algorithm data. []),
     subtle_deriveKey = (\<lambda>params keyMaterial derived. CryptoKey (fst derived) []),
     subtle_deriveBits = (\<lambda>params keyMaterial len. replicate (len div 8) 0),
     subtle_encrypt = (\<lambda>params key data. aes_iv params @ data),
     subtle_decrypt = (\<lambda>params key data. Inr (drop (length (aes_iv params)) data))\<rparr>"

section \<open>Message codec\<close>

definition RPC_TYPE_CALL :: int where
  "RPC_TYPE_CALL = 0xdf68f4cb"

definition RPC_TYPE_RETURN :: int where
  "RPC_TYPE_RETURN = 0x68b17581"

definition RPC_TYPE_CALLBACK :: int where
  "RPC_TYPE_CALLBACK = 0x8d65e5cc"

definition RPC_TYPE_ERROR :: int where
  "RPC_TYPE_ERROR = 0xa07c0f84"

definition RPC_DATA_ARG_TYPE_OTHERS :: int where
  "RPC_DATA_ARG_TYPE_OTHERS = 0xa7f68c"

definition RPC_DATA_ARG_TYPE_FUNCTION :: int where
  "RPC_DATA_ARG_TYPE_FUNCTION = 0x7ff45f"

text \<open>
  \<open>RPC_DATA\<close> of types.ts: the box \<open>{id, type, data}\<close>. The serializer \<open>packr\<close> (msgpackr)
  is a collaborator, so \<open>pack\<close> and \<open>unpack\<close> are parameters.
\<close>

record RPC_DATA =
  box_id :: jsval
  box_type :: jsval
  box_data :: jsval

record Packr =
  pack :: "jsval \<Rightarrow> Uint8Array"
  unpack :: "Uint8Array \<Rightarrow> error + jsval"

text \<open>
  \<open>v == n\<close> for a number \<open>n\<close>. The type of a message is a number on every message the
  library builds; the coercions of \<open>==\<close> for a string or an array that spells the number
  are not modelled.
\<close>

definition js_eq_num :: "jsval \<Rightarrow> int \<Rightarrow> bool" where
  "js_eq_num v n = (case v of JNum m \<Rightarrow> m = n | _ \<Rightarrow> False)"

text \<open>
  Reading one of the properties \<open>type\<close>, \<open>data\<close>, \<open>message\<close>, \<open>stack\<close>: a \<open>TypeError\<close> on
  \<open>undefined\<close> and \<open>null\<close>, the own property of an object, and \<open>undefined\<close> on every other
  value (none of them inherits a property of these names).
\<close>

definition js_get :: "jsval \<Rightarrow> string \<Rightarrow> error + jsval" where
  "js_get v name =
     (case v of
        JUndefined \<Rightarrow> Inl (TypeError ''Cannot read properties of undefined'')
      | JNull \<Rightarrow> Inl (TypeError ''Cannot read properties of null'')
      | JObj props \<Rightarrow> Inr (case map_of props name of None \<Rightarrow> JUndefined | Some x \<Rightarrow> x)
      | _ \<Rightarrow> Inr JUndefined)"

text \<open>
  Array destructuring \<open>[a, b, c] = v\<close> iterates \<open>v\<close>: an array gives its elements, a string
  its characters, a \<open>Uint8Array\<close> its bytes as numbers; anything else is not iterable. A
  position past the end reads \<open>undefined\<close>.
\<close>

definition js_iter :: "jsval \<Rightarrow> error + jsval list" where
  "js_iter v =
     (case v of
        JArr xs \<Rightarrow> Inr xs
      | JStr s \<Rightarrow> Inr (map (\<lambda>c. JStr [c]) s)
      | JBytes bs \<Rightarrow> Inr (map (\<lambda>b. JNum (uint b)) bs)
      | _ \<Rightarrow> Inl (TypeError ''value is not iterable''))"

definition js_nth :: "jsval list \<Rightarrow> nat \<Rightarrow> jsval" where
  "js_nth xs i = (if i < length xs then xs ! i else JUndefined)"

text \<open>\<open>Array.prototype.map\<close> with a callback that may throw: the first throw ends it.\<close>

fun map_result :: "('a \<Rightarrow> error + 'b) \<Rightarrow> 'a list \<Rightarrow> error + 'b list" where
  "map_result f [] = Inr []"
| "map_result f (x # xs) =
     (case f x of
        Inl e \<Rightarrow> Inl e
      | Inr y \<Rightarrow> (case map_result f xs of Inl e \<Rightarrow> Inl e | Inr ys \<Rightarrow> Inr (y # ys)))"

text \<open>
  \<open>buildRpcData\<close>: \<open>data.map(({type, data}) => [type, data])\<close> for CALL and CALLBACK. A
  \<open>Uint8Array\<close> has a \<open>map\<close> too; it stores \<open>ToNumber([type, data])\<close>, which is \<open>NaN\<close>, as 0.
  Any other value has no \<open>map\<close>.
\<close>

definition build_item :: "jsval \<Rightarrow> error + jsval" where
  "build_item item =
     (case js_get item ''type'' of
        Inl e \<Rightarrow> Inl e
      | Inr t \<Rightarrow> (case js_get item ''data'' of Inl e \<Rightarrow> Inl e | Inr d \<Rightarrow> Inr (JArr [t, d])))"

text \<open>
  The array \<open>[box.id, type, data]\<close> that \<open>buildRpcData\<close> hands to \<open>packr.pack\<close>, then
  \<open>buildRpcData\<close> itself (\<open>Uint8Array.from\<close> copies the bytes).
\<close>

definition buildRpcData_triple :: "RPC_DATA \<Rightarrow> error + jsval" where
  "buildRpcData_triple box =
     (let type = box_type box; data = box_data box in
      if js_eq_num type RPC_TYPE_CALL \<or> js_eq_num type RPC_TYPE_CALLBACK
      then
        (case data of
           JArr items \<Rightarrow>
             (case map_result build_item items of
                Inl e \<Rightarrow> Inl e
              | Inr pairs \<Rightarrow> Inr (JArr [box_id box, type, JArr pairs]))
         | JBytes bs \<Rightarrow> Inr (JArr [box_id box, type, JBytes (replicate (length bs) 0)])
         | _ \<Rightarrow> Inl (TypeError ''data.map is not a function''))
      else Inr (JArr [box_id box, type, data]))"

definition buildRpcData :: "Packr \<Rightarrow> RPC_DATA \<Rightarrow> error + Uint8Array" where
  "buildRpcData packr box =
     (case buildRpcData_triple box of
        Inl e \<Rightarrow> Inl e
      | Inr triple \<Rightarrow> Inr (pack packr triple))"

text \<open>
  \<open>parseRpcData\<close>: \<open>data.map(([type, data]) => ({type, data}))\<close> for CALL and CALLBACK. On
  a non-empty \<open>Uint8Array\<close> the callback destructures a number, which is not iterable.
\<close>

definition parse_item :: "jsval \<Rightarrow> error + jsval" where
  "parse_item pair =
     (case js_iter pair of
        Inl e \<Rightarrow> Inl e
      | Inr xs \<Rightarrow> Inr (JObj [(''type'', js_nth xs 0), (''data'', js_nth xs 1)]))"

definition parseRpcData :: "Packr \<Rightarrow> Uint8Array \<Rightarrow> error + RPC_DATA" where
  "parseRpcData packr buffer =
     (case unpack packr buffer of
        Inl e \<Rightarrow> Inl e
      | Inr v \<Rightarrow>
          (case js_iter v of
             Inl e \<Rightarrow> Inl e
           | Inr xs \<Rightarrow>
               (let id' = js_nth xs 0; type = js_nth xs 1; data = js_nth xs 2 in
                if js_eq_num type RPC_TYPE_CALL \<or> js_eq_num type RPC_TYPE_CALLBACK
                then
                  (case data of
                     JArr pairs \<Rightarrow>
                       (case map_result parse_item pairs of
                          Inl e \<Rightarrow> Inl e
                        | Inr items \<Rightarrow>
                            Inr \<lparr>box_id = id', box_type = type, box_data = JArr items\<rparr>)
                   | JBytes [] \<Rightarrow> Inr \<lparr>box_id = id', box_type = type, box_data = JBytes []\<rparr>
                   | JBytes (b # bs) \<Rightarrow> Inl (TypeError ''number is not iterable'')
                   | _ \<Rightarrow> Inl (TypeError ''data.map is not a function''))
                else Inr \<lparr>box_id = id', box_type = type, box_data = data\<rparr>)))"

text \<open>
  A stand-in for the serializer where a run needs a concrete one: \<open>unpack\<close> yields the
  given value for every buffer, that is, the buffer at hand is one that unpacks to it.
\<close>

definition stub_packr :: "jsval \<Rightarrow> Packr" where
  "stub_packr v = \<lparr>pack = (\<lambda>x. []), unpack = (\<lambda>buffer. Inr v)\<rparr>"

section \<open>Client engine (createRpcClientHelper)\<close>

text \<open>
  The state of one client helper: the counter \<open>uniqueKeyID\<close>, the \<open>Map\<close>
  \<open>callbackFunctionMap\<close> in insertion order, the promises made by
  \<open>Promise_withResolvers\<close> (each is made by one \<open>apiInvoke\<close> and is named by that call's id),
  the buffers accepted by \<open>writer.write\<close>, and the calls made to the user's callbacks (the
  callback and its arguments). A \<open>CALLBACK_ITEM\<close> is \<open>{id, type, promise?, callback?}\<close>; a
  user function is named by a number.
\<close>

datatype promise_state = Pending | Fulfilled jsval | Rejected error

record CALLBACK_ITEM =
  item_id :: nat
  item_type :: int
  promise :: "nat option"
  callback :: "nat option"

record client_state =
  uniqueKeyID :: nat
  callbackFunctionMap :: "(nat \<times> CALLBACK_ITEM) list"
  promises :: "nat \<rightharpoonup> promise_state"
  written :: "Uint8Array list"
  invoked :: "(nat \<times> jsval list) list"

text \<open>Settling a promise has an effect only while it is pending.\<close>

definition promise_resolve ::
  "nat \<Rightarrow> jsval \<Rightarrow> (nat \<rightharpoonup> promise_state) \<Rightarrow> (nat \<rightharpoonup> promise_state)" where
  "promise_resolve p v ps = (case ps p of Some Pending \<Rightarrow> ps(p \<mapsto> Fulfilled v) | _ \<Rightarrow> ps)"

definition promise_reject ::
  "nat \<Rightarrow> error \<Rightarrow> (nat \<rightharpoonup> promise_state) \<Rightarrow> (nat \<rightharpoonup> promise_state)" where
  "promise_reject p e ps = (case ps p of Some Pending \<Rightarrow> ps(p \<mapsto> Rejected e) | _ \<Rightarrow> ps)"

text \<open>
  The keys of the map are the numbers \<open>apiInvoke\<close> stored, and \<open>Map.has\<close> compares without
  coercion: an id from the wire finds an entry only if it is that number.
\<close>

definition map_key :: "jsval \<Rightarrow> nat option" where
  "map_key v = (case v of JNum n \<Rightarrow> if 0 \<le> n then Some (nat n) else None | _ \<Rightarrow> None)"

text \<open>
  \<open>reject(error)\<close>: \<open>forEach\<close> entry \<open>o.promise?.reject(error)\<close>, then \<open>clear()\<close>. The \<open>catch\<close>
  branch of the inbound handler runs the same two statements.
\<close>

fun reject_each ::
  "error \<Rightarrow> (nat \<times> CALLBACK_ITEM) list \<Rightarrow> (nat \<rightharpoonup> promise_state) \<Rightarrow> (nat \<rightharpoonup> promise_state)" where
  "reject_each e [] ps = ps"
| "reject_each e ((k, o') # entries) ps =
     reject_each e entries (case promise o' of None \<Rightarrow> ps | Some p \<Rightarrow> promise_reject p e ps)"

definition reject :: "error \<Rightarrow> client_state \<Rightarrow> client_state" where
  "reject e st =
     st\<lparr>promises := reject_each e (callbackFunctionMap st) (promises st),
        callbackFunctionMap := []\<rparr>"

text \<open>
  \<open>new RPCError(message, stack)\<close>: the stack is replaced only by a truthy \<open>stack\<close>. The
  message is the value handed to \<open>Error\<close>, which converts it with \<open>ToString\<close>: the identity
  on the strings a server sends.
\<close>

definition js_truthy :: "jsval \<Rightarrow> bool" where
  "js_truthy v =
     (case v of
        JUndefined \<Rightarrow> False
      | JNull \<Rightarrow> False
      | JBool b \<Rightarrow> b
      | JNum n \<Rightarrow> n \<noteq> 0
      | JStr s \<Rightarrow> s \<noteq> []
      | _ \<Rightarrow> True)"

definition new_RPCError :: "jsval \<Rightarrow> jsval \<Rightarrow> error" where
  "new_RPCError message stack = RPCError message (if js_truthy stack then Some stack else None)"

text \<open>
  The three \<open>if\<close> statements of the inbound handler, each on the entry \<open>o\<close> found under
  the key \<open>k\<close>. Each returns the state it leaves and the exception it throws, if any: what
  a statement did before a later one throws stays done. \<open>o.promise.reject\<close> and
  \<open>o.callback.apply\<close> throw a \<open>TypeError\<close> when the entry has no such field.
\<close>

definition on_error :: "RPC_DATA \<Rightarrow> CALLBACK_ITEM \<Rightarrow> client_state \<Rightarrow> client_state \<times> error option" where
  "on_error data o' st =
     (if js_eq_num (box_type data) RPC_TYPE_ERROR
      then
        (case promise o' of
           None \<Rightarrow> (st, Some (TypeError ''Cannot read properties of undefined (reading reject)''))
         | Some p \<Rightarrow>
             (case js_get (box_data data) ''message'' of
                Inl e \<Rightarrow> (st, Some e)
              | Inr message \<Rightarrow>
                  (case js_get (box_data data) ''stack'' of
                     Inl e \<Rightarrow> (st, Some e)
                   | Inr stack \<Rightarrow>
                       (st\<lparr>promises := promise_reject p (new_RPCError message stack) (promises st)\<rparr>,
                        None))))
      else (st, None))"

definition on_return ::
  "RPC_DATA \<Rightarrow> nat \<Rightarrow> CALLBACK_ITEM \<Rightarrow> client_state \<Rightarrow> client_state \<times> error option" where
  "on_return data k o' st =
     (if js_eq_num (box_type data) RPC_TYPE_RETURN
      then
        (let st = st\<lparr>callbackFunctionMap := AList.delete k (callbackFunctionMap st)\<rparr> in
         case promise o' of
           None \<Rightarrow> (st, Some (TypeError ''Cannot read properties of undefined (reading resolve)''))
         | Some p \<Rightarrow> (st\<lparr>promises := promise_resolve p (box_data data) (promises st)\<rparr>, None))
      else (st, None))"

text \<open>
  \<open>items.map((o) => o.data)\<close> and \<open>o.callback.apply(o, args)\<close>. The callback is an async
  function, so calling it does not throw; the call is recorded.
\<close>

definition callback_args :: "jsval \<Rightarrow> error + jsval list" where
  "callback_args items =
     (case items of
        JArr xs \<Rightarrow> map_result (\<lambda>x. js_get x ''data'') xs
      | JBytes bs \<Rightarrow> Inr (map (\<lambda>b. JNum 0) bs)
      | _ \<Rightarrow> Inl (TypeError ''items.map is not a function''))"

definition on_callback :: "RPC_DATA \<Rightarrow> CALLBACK_ITEM \<Rightarrow> client_state \<Rightarrow> client_state \<times> error option" where
  "on_callback data o' st =
     (if js_eq_num (box_type data) RPC_TYPE_CALLBACK
      then
        (case callback_args (box_data data) of
           Inl e \<Rightarrow> (st, Some e)
         | Inr args \<Rightarrow>
             (case callback o' of
                None \<Rightarrow> (st, Some (TypeError ''Cannot read properties of undefined (reading apply)''))
              | Some f \<Rightarrow> (st\<lparr>invoked := invoked st @ [(f, args)]\<rparr>, None)))
      else (st, None))"

text \<open>The \<open>try\<close> block of \<open>write(buffer)\<close>, then the whole handler with its \<open>catch\<close>.\<close>

definition onMessage_try :: "Packr \<Rightarrow> Uint8Array \<Rightarrow> client_state \<Rightarrow> client_state \<times> error option" where
  "onMessage_try packr buffer st =
     (case parseRpcData packr buffer of
        Inl e \<Rightarrow> (st, Some e)
      | Inr data \<Rightarrow>
          (case map_key (box_id data) of
             None \<Rightarrow> (st, None)
           | Some k \<Rightarrow>
               (case map_of (callbackFunctionMap st) k of
                  None \<Rightarrow> (st, None)
                | Some o' \<Rightarrow>
                    (case on_error data o' st of
                       (st1, Some e) \<Rightarrow> (st1, Some e)
                     | (st1, None) \<Rightarrow>
                         (case on_return data k o' st1 of
                            (st2, Some e) \<Rightarrow> (st2, Some e)
                          | (st2, None) \<Rightarrow> on_callback data o' st2)))))"

definition onMessage :: "Packr \<Rightarrow> Uint8Array \<Rightarrow> client_state \<Rightarrow> client_state" where
  "onMessage packr buffer st =
     (case onMessage_try packr buffer st of
        (st', None) \<Rightarrow> st'
      | (st', Some e) \<Rightarrow> reject e st')"

text \<open>
  A callable handed to \<open>apiInvoke\<close> (\<open>typeof arg == 'function'\<close>), by what the code can
  observe of it and what the spec says of it: which function it is, whether
  \<open>arg instanceof Function\<close> holds (it does not for a function of another realm or one
  whose prototype was changed), \<open>arg.constructor?.name\<close> (\<open>None\<close> for \<open>undefined\<close>), whether
  it really is an async function, and what calling it with no arguments gives (a throw
  or the value that goes on the wire).
\<close>

record js_function =
  fn_ref :: nat
  instanceof_Function :: bool
  constructor_name :: "string option"
  is_async :: bool
  call_result :: "error + jsval"

text \<open>
  The two ordinary cases: a function declared \<open>async\<close>, and a plain function (a call
  of the first gives a promise, which has no own property to serialize).
\<close>

definition async_function :: "nat \<Rightarrow> js_function" where
  "async_function f =
     \<lparr>fn_ref = f, instanceof_Function = True, constructor_name = Some ''AsyncFunction'',
      is_async = True, call_result = Inr (JObj [])\<rparr>"

definition plain_function :: "nat \<Rightarrow> jsval \<Rightarrow> js_function" where
  "plain_function f v =
     \<lparr>fn_ref = f, instanceof_Function = True, constructor_name = Some ''Function'',
      is_async = False, call_result = Inr v\<rparr>"

text \<open>
  An argument of \<open>apiInvoke\<close> is a callable or a value. An element of \<open>argArray\<close> is the
  thunk \<open>() => key\<close>, a plain value, or a callable that was pushed as it is because
  \<open>arg instanceof Function\<close> failed.
\<close>

datatype js_arg = ArgFunction js_function | ArgValue jsval

datatype arg_item = Thunk nat | Plain jsval | Direct js_function

definition receivedType :: "string option \<Rightarrow> string" where
  "receivedType c = (case c of None \<Rightarrow> ''regular function'' | Some n \<Rightarrow> if n = [] then ''regular function'' else n)"

definition async_callback_error :: "string option \<Rightarrow> error" where
  "async_callback_error c =
     Error (''Expected an AsyncFunction as the callback, but received a '' @ receivedType c @ ''. ''
       @ ''Ensure the callback is declared with '' @ [CHR 0x22] @ ''async function'' @ [CHR 0x22]
       @ '' or an arrow function using '' @ [CHR 0x22] @ ''async'' @ [CHR 0x22] @ ''.'')"

text \<open>
  The \<open>for\<close> loop of \<open>apiInvoke\<close> over the arguments. The state is returned on a throw
  too: what the loop stored before the throw stays stored.
\<close>

fun apiInvoke_args ::
  "js_arg list \<Rightarrow> client_state \<Rightarrow> nat list \<Rightarrow> arg_item list
     \<Rightarrow> client_state \<times> (error + nat list \<times> arg_item list)" where
  "apiInvoke_args [] st keys argArray = (st, Inr (keys, argArray))"
| "apiInvoke_args (ArgFunction fn # args) st keys argArray =
     (if instanceof_Function fn
      then
        (if constructor_name fn \<noteq> Some ''AsyncFunction''
         then (st, Inl (async_callback_error (constructor_name fn)))
         else
           let key = uniqueKeyID st;
               st = st\<lparr>uniqueKeyID := key + 1,
                      callbackFunctionMap := AList.update key
                        \<lparr>item_id = key, item_type = RPC_TYPE_CALLBACK, promise = None,
                         callback = Some (fn_ref fn)\<rparr>
                        (callbackFunctionMap st)\<rparr>
           in apiInvoke_args args st (keys @ [key]) (argArray @ [Thunk key]))
      else apiInvoke_args args st keys (argArray @ [Direct fn]))"
| "apiInvoke_args (ArgValue v # args) st keys argArray =
     apiInvoke_args args st keys (argArray @ [Plain v])"

text \<open>\<open>apiInvoke\<close> up to its \<open>try\<close>: the call id, the waiter, and the loop.\<close>

definition apiInvoke_begin ::
  "string \<Rightarrow> js_arg list \<Rightarrow> client_state
     \<Rightarrow> client_state \<times> (error + nat \<times> nat list \<times> arg_item list)" where
  "apiInvoke_begin fnName args st =
     (let id' = uniqueKeyID st;
          st = st\<lparr>uniqueKeyID := id' + 1,
                 promises := (promises st)(id' \<mapsto> Pending),
                 callbackFunctionMap := AList.update id'
                   \<lparr>item_id = id', item_type = RPC_TYPE_RETURN, promise = Some id', callback = None\<rparr>
                   (callbackFunctionMap st)\<rparr>
      in case apiInvoke_args args st [] [Plain (JStr fnName)] of
           (st', Inl e) \<Rightarrow> (st', Inl e)
         | (st', Inr (keys, argArray)) \<Rightarrow> (st', Inr (id', keys, argArray)))"

text \<open>
  \<open>buildRpcItemData\<close> on \<open>argArray\<close>: \<open>typeof item == 'function'\<close> holds for the thunks,
  which are called for the key, and for a callable that was pushed as it is, which is
  called too (the call is recorded) and whose result is sent as a FUNCTION item. A throw
  of that call ends the loop.
\<close>

fun buildRpcItemData :: "arg_item list \<Rightarrow> client_state \<Rightarrow> client_state \<times> (error + jsval list)" where
  "buildRpcItemData [] st = (st, Inr [])"
| "buildRpcItemData (Thunk key # items) st =
     (case buildRpcItemData items st of
        (st', Inl e) \<Rightarrow> (st', Inl e)
      | (st', Inr arr) \<Rightarrow>
          (st', Inr (JObj [(''type'', JNum RPC_DATA_ARG_TYPE_FUNCTION), (''data'', JNum (int key))] # arr)))"
| "buildRpcItemData (Plain v # items) st =
     (case buildRpcItemData items st of
        (st', Inl e) \<Rightarrow> (st', Inl e)
      | (st', Inr arr) \<Rightarrow>
          (st', Inr (JObj [(''type'', JNum RPC_DATA_ARG_TYPE_OTHERS), (''data'', v)] # arr)))"
| "buildRpcItemData (Direct fn # items) st =
     (let st = st\<lparr>invoked := invoked st @ [(fn_ref fn, [])]\<rparr> in
      case call_result fn of
        Inl e \<Rightarrow> (st, Inl e)
      | Inr v \<Rightarrow>
          (case buildRpcItemData items st of
             (st', Inl e) \<Rightarrow> (st', Inl e)
           | (st', Inr arr) \<Rightarrow>
               (st', Inr (JObj [(''type'', JNum RPC_DATA_ARG_TYPE_FUNCTION), (''data'', v)] # arr))))"

definition apiInvoke_finally :: "nat list \<Rightarrow> client_state \<Rightarrow> client_state" where
  "apiInvoke_finally keys st =
     st\<lparr>callbackFunctionMap := fold AList.delete keys (callbackFunctionMap st)\<rparr>"

text \<open>
  One whole \<open>apiInvoke\<close>. Its two awaits are where the rest of the pipeline runs:
  \<open>write_result\<close> is how \<open>await writer.write\<close> ends (\<open>None\<close> accepted, \<open>Some e\<close> rejected),
  and \<open>env\<close> is everything that happens to the state (inbound messages, other
  invocations, \<open>reject\<close>) until the invocation resumes. The result is the state when it
  returns or throws, with the value returned (\<open>Inr\<close>) or thrown (\<open>Inl\<close>); \<open>None\<close> when the
  waiter is still pending, so that the invocation has not resumed.
\<close>

definition apiInvoke ::
  "Packr \<Rightarrow> string \<Rightarrow> js_arg list \<Rightarrow> error option \<Rightarrow> (client_state \<Rightarrow> client_state)
     \<Rightarrow> client_state \<Rightarrow> client_state \<times> (error + jsval) option" where
  "apiInvoke packr fnName args write_result env st =
     (case apiInvoke_begin fnName args st of
        (st1, Inl e) \<Rightarrow> (st1, Some (Inl e))
      | (st1, Inr (id', keys, argArray)) \<Rightarrow>
          (case buildRpcItemData argArray st1 of
             (st1, Inl e) \<Rightarrow> (apiInvoke_finally keys st1, Some (Inl e))
           | (st1, Inr items) \<Rightarrow>
               (let box = \<lparr>box_id = JNum (int id'), box_type = JNum RPC_TYPE_CALL,
                            box_data = JArr items\<rparr> in
                case buildRpcData packr box of
                  Inl e \<Rightarrow> (apiInvoke_finally keys st1, Some (Inl e))
                | Inr buffer \<Rightarrow>
                    (case write_result of
                       Some e \<Rightarrow> (apiInvoke_finally keys (env st1), Some (Inl e))
                     | None \<Rightarrow>
                         (let st2 = env (st1\<lparr>written := written st1 @ [buffer]\<rparr>) in
                          case promises st2 id' of
                            Some (Fulfilled v) \<Rightarrow> (apiInvoke_finally keys st2, Some (Inr v))
                          | Some (Rejected e) \<Rightarrow> (apiInvoke_finally keys st2, Some (Inl e))
                          | _ \<Rightarrow> (st2, None))))))"

text \<open>The state \<open>createRpcClientHelper\<close> starts with.\<close>

definition createRpcClientHelper :: client_state where
  "createRpcClientHelper =
     \<lparr>uniqueKeyID = 0, callbackFunctionMap = [], promises = Map.empty, written = [], invoked = []\<rparr>"


definition callback_slot :: "nat \<Rightarrow> nat \<Rightarrow> CALLBACK_ITEM" where
  "callback_slot key f = \<lparr>item_id = key, item_type = RPC_TYPE_CALLBACK, promise = None, callback = Some f\<rparr>"

definition result_waiter :: "nat \<Rightarrow> CALLBACK_ITEM" where
  "result_waiter k = \<lparr>item_id = k, item_type = RPC_TYPE_RETURN, promise = Some k, callback = None\<rparr>"

section \<open>The reconnect loop (timeWaitRetryLoop)\<close>



text \<open>An argument item as types.ts declares it: exactly \<open>{type: t, data: d}\<close>.\<close>

fun is_arg_item :: "jsval \<Rightarrow> bool" where
  "is_arg_item (JObj [(k1, t), (k2, d)]) = (k1 = ''type'' \<and> k2 = ''data'')"
| "is_arg_item v = False"

text \<open>
  The bytes of a frame as the wire format of the spec has it: a number as four
  little-endian bytes, and a record \<open>c\<close> behind its length and \<open>HEADER_CHECK\<close>.
\<close>

definition le32 :: "nat \<Rightarrow> Uint8Array" where
  "le32 n = [word_of_nat n, word_of_nat (n div 2 ^ 8), word_of_nat (n div 2 ^ 16), word_of_nat (n div 2 ^ 24)]"

definition frame :: "Uint8Array \<Rightarrow> Uint8Array" where
  "frame c = le32 (length c) @ le32 HEADER_CHECK @ c"

section \<open>The frame decoder's header checks\<close>

text \<open>
  C4 (as the code has it). Whenever the loop of the decoder stands at an offset where the
  buffer holds 8 more bytes, at the start of the carry or behind records it has already
  decoded, it reads \<open>len\<close> and \<open>magic\<close> there. The length check comes first: if the buffer
  holds fewer than \<open>8 + len\<close> bytes from that offset the decoder stops, returns the records
  decoded so far and keeps the bytes from that offset on as the carry, whatever the magic
  is, and logs nothing. Only when the \<open>8 + len\<close> bytes are there is the magic compared;
  if it differs from \<open>0xB1F7705F\<close> the decoder logs the check error, returns the records
  decoded so far and discards the carry. \<open>parseBufferData\<close> is this loop from offset 0
  with no record decoded.
\<close>

theorem parseBufferData_header_checks:
  assumes "offset + 8 \<le> length buffer"
    and "readUInt32LE buffer offset = Inr len"
    and "readUInt32LE buffer (offset + 4) = Inr magic"
  shows "(length buffer < offset + 8 + len \<longrightarrow>
            parseBufferData_loop crypto buffer key iv offset queue
              = Inr (queue, drop offset buffer, []))
       \<and> (offset + 8 + len \<le> length buffer \<and> magic \<noteq> HEADER_CHECK \<longrightarrow>
            parseBufferData_loop crypto buffer key iv offset queue
              = Inr (queue, [], [DataCheckError len magic]))
       \<and> parseBufferData crypto buffer key iv = parseBufferData_loop crypto buffer key iv 0 []"
proof (intro conjI impI)
  assume "length buffer < offset + 8 + len"
  then show "parseBufferData_loop crypto buffer key iv offset queue = Inr (queue, drop offset buffer, [])"
    using assms by (subst parseBufferData_loop.simps) simp
next
  assume "offset + 8 + len \<le> length buffer \<and> magic \<noteq> HEADER_CHECK"
  then show "parseBufferData_loop crypto buffer key iv offset queue
      = Inr (queue, [], [DataCheckError len magic])"
    using assms by (subst parseBufferData_loop.simps) auto
next
  show "parseBufferData crypto buffer key iv = parseBufferData_loop crypto buffer key iv 0 []"
    by (simp add: parseBufferData_def)
qed

theorem parseBufferData_header_checks_witness:
  "parseBufferData_loop stub_subtle
      [1, 0, 0, 0, 95, 112, 247, 177, 3, 0, 0, 0, 0, 1, 2, 3, 4] None None 9 [[3]]
     = Inr ([[3]], [], [DataCheckError 0 67305985])
   \<and> parseBufferData_loop stub_subtle
      [1, 0, 0, 0, 95, 112, 247, 177, 3, 9, 0, 0, 0, 1, 2, 3, 4, 5] None None 9 [[3]]
     = Inr ([[3]], [9, 0, 0, 0, 1, 2, 3, 4, 5], [])
   \<and> parseBufferData stub_subtle [0, 0, 0, 0, 1, 2, 3, 4] None None
     = Inr ([], [], [DataCheckError 0 67305985])"
  using parseBufferData_header_checks
      [of 9 "[1, 0, 0, 0, 95, 112, 247, 177, 3, 0, 0, 0, 0, 1, 2, 3, 4]" 0 67305985
          stub_subtle None None "[[3]]"]
    parseBufferData_header_checks
      [of 9 "[1, 0, 0, 0, 95, 112, 247, 177, 3, 9, 0, 0, 0, 1, 2, 3, 4, 5]" 9 67305985
          stub_subtle None None "[[3]]"]
    parseBufferData_header_checks [of 0 "[0, 0, 0, 0, 1, 2, 3, 4]" 0 67305985 stub_subtle None None "[]"]
  by (simp add: readUInt32LE_def HEADER_CHECK_def)

text \<open>
  C4 as stated fails: a carry of 8 header bytes whose magic is 0 and whose length field
  is \<open>0xFFFFFFFF\<close> is kept as it is and nothing is logged, because the length check
  returns before the magic is compared.
\<close>

theorem parseBufferData_bad_magic_kept:
  "readUInt32LE [255, 255, 255, 255, 0, 0, 0, 0] 4 = Inr 0
   \<and> 0 \<noteq> HEADER_CHECK
   \<and> parseBufferData stub_subtle [255, 255, 255, 255, 0, 0, 0, 0] None None
       = Inr ([], [255, 255, 255, 255, 0, 0, 0, 0], [])"
  unfolding parseBufferData_def
  by (subst parseBufferData_loop.simps) (simp add: readUInt32LE_def HEADER_CHECK_def)

section \<open>Local usage errors of apiInvoke\<close>




lemmas engine_defs =
  apiInvoke_def apiInvoke_begin_def apiInvoke_finally_def buildRpcData_def
  buildRpcData_triple_def async_function_def plain_function_def
  parseRpcData_def onMessage_def onMessage_try_def on_error_def on_return_def on_callback_def
  callback_args_def build_item_def parse_item_def js_get_def js_iter_def js_nth_def js_eq_num_def
  map_key_def stub_packr_def createRpcClientHelper_def promise_resolve_def promise_reject_def
  reject_def new_RPCError_def js_truthy_def callback_slot_def result_waiter_def
  RPC_TYPE_CALL_def RPC_TYPE_RETURN_def RPC_TYPE_CALLBACK_def RPC_TYPE_ERROR_def
  RPC_DATA_ARG_TYPE_OTHERS_def RPC_DATA_ARG_TYPE_FUNCTION_def Let_def


section \<open>The pending-call table\<close>







lemma reject_each_stable:
  "ps p = Some (Rejected e) \<Longrightarrow> reject_each e al ps p = Some (Rejected e)"
  by (induction al arbitrary: ps) (auto simp: promise_reject_def split: option.splits promise_state.splits)

lemma reject_each_hits:
  "(k, o') \<in> set al \<Longrightarrow> promise o' = Some p \<Longrightarrow> ps p = Some Pending
     \<Longrightarrow> reject_each e al ps p = Some (Rejected e)"
proof (induction al arbitrary: ps)
  case Nil
  then show ?case by simp
next
  case (Cons a al)
  obtain k0 o0 where a: "a = (k0, o0)" by (cases a)
  let ?ps1 = "case promise o0 of None \<Rightarrow> ps | Some q \<Rightarrow> promise_reject q e ps"
  have "?ps1 p = Some Pending \<or> ?ps1 p = Some (Rejected e)"
    using Cons.prems(3) by (auto simp: promise_reject_def split: option.splits promise_state.splits)
  moreover have "?ps1 p = Some (Rejected e)" if "(k, o') = a"
    using that a Cons.prems by (auto simp: promise_reject_def)
  ultimately show ?case
    using Cons.IH [of ?ps1] Cons.prems(1,2) reject_each_stable [of ?ps1 p e al] a
    by auto
qed


lemma reject_rejects:
  "map_of (callbackFunctionMap st) k = Some o' \<Longrightarrow> promise o' = Some p \<Longrightarrow> promises st p = Some Pending
     \<Longrightarrow> promises (reject e st) p = Some (Rejected e)"
  using reject_each_hits [of k o' "callbackFunctionMap st" p "promises st" e]
  by (auto simp: reject_def dest: map_of_SomeD)

lemma js_eq_num_types:
  "js_eq_num t RPC_TYPE_RETURN \<Longrightarrow> \<not> js_eq_num t RPC_TYPE_ERROR"
  "js_eq_num t RPC_TYPE_CALLBACK \<Longrightarrow> \<not> js_eq_num t RPC_TYPE_ERROR"
  "js_eq_num t RPC_TYPE_CALLBACK \<Longrightarrow> \<not> js_eq_num t RPC_TYPE_RETURN"
  by (auto simp: js_eq_num_def RPC_TYPE_RETURN_def RPC_TYPE_ERROR_def RPC_TYPE_CALLBACK_def split: jsval.splits)








lemma onMessage_try_mismatch:
  assumes "parseRpcData packr buffer = Inr data"
    and "map_key (box_id data) = Some k"
    and "map_of (callbackFunctionMap st) k = Some o'"
    and "(js_eq_num (box_type data) RPC_TYPE_CALLBACK \<and> callback o' = None)
       \<or> ((js_eq_num (box_type data) RPC_TYPE_RETURN \<or> js_eq_num (box_type data) RPC_TYPE_ERROR)
            \<and> promise o' = None)"
  shows "\<exists>e. onMessage_try packr buffer st = (st, Some e)
           \<or> (promise o' = None
               \<and> onMessage_try packr buffer st
                  = (st\<lparr>callbackFunctionMap := AList.delete k (callbackFunctionMap st)\<rparr>, Some e))"
  using assms js_eq_num_types [of "box_type data"]
  by (auto simp: onMessage_try_def on_error_def on_return_def on_callback_def Let_def
      split: sum.splits option.splits)

text \<open>
  C9. If the id of an inbound message is registered but the type does not fit the entry
  (a CALLBACK for an entry with no \<open>callback\<close>, or a RETURN or ERROR for an entry with no
  \<open>promise\<close>), the handler throws inside its \<open>try\<close>; the \<open>catch\<close> branch then leaves the map
  empty and every promise of an entry of the map that was pending is rejected with the
  error thrown.
\<close>

theorem onMessage_role_mismatch_fails_all:
  assumes "parseRpcData packr buffer = Inr data"
    and "map_key (box_id data) = Some k"
    and "map_of (callbackFunctionMap st) k = Some o'"
    and "(js_eq_num (box_type data) RPC_TYPE_CALLBACK \<and> callback o' = None)
       \<or> ((js_eq_num (box_type data) RPC_TYPE_RETURN \<or> js_eq_num (box_type data) RPC_TYPE_ERROR)
            \<and> promise o' = None)"
  shows "\<exists>e. callbackFunctionMap (onMessage packr buffer st) = []
          \<and> (\<forall>k' w p. map_of (callbackFunctionMap st) k' = Some w \<and> promise w = Some p
                  \<and> promises st p = Some Pending
                \<longrightarrow> promises (onMessage packr buffer st) p = Some (Rejected e))"
proof -
  let ?st1 = "st\<lparr>callbackFunctionMap := AList.delete k (callbackFunctionMap st)\<rparr>"
  obtain e where e: "onMessage_try packr buffer st = (st, Some e)
       \<or> (promise o' = None \<and> onMessage_try packr buffer st = (?st1, Some e))"
    using onMessage_try_mismatch [OF assms] by blast
  show ?thesis
  proof (intro exI [of _ e] conjI allI impI)
    show "callbackFunctionMap (onMessage packr buffer st) = []"
      using e by (auto simp: onMessage_def reject_def)
  next
    fix k' w p
    assume a: "map_of (callbackFunctionMap st) k' = Some w \<and> promise w = Some p
                  \<and> promises st p = Some Pending"
    from e show "promises (onMessage packr buffer st) p = Some (Rejected e)"
    proof
      assume "onMessage_try packr buffer st = (st, Some e)"
      then show ?thesis using a reject_rejects [of st k' w p e] by (simp add: onMessage_def)
    next
      assume b: "promise o' = None \<and> onMessage_try packr buffer st = (?st1, Some e)"
      then have "k' \<noteq> k" using a assms(3) by auto
      then have "map_of (callbackFunctionMap ?st1) k' = Some w" using a by (simp add: delete_conv')
      then show ?thesis using a b reject_rejects [of ?st1 k' w p e] by (simp add: onMessage_def)
    qed
  qed
qed

theorem onMessage_role_mismatch_fails_all_witness:
  "\<exists>e. callbackFunctionMap
          (onMessage (stub_packr (JArr [JNum 1, JNum RPC_TYPE_RETURN, JStr ''x''])) []
             (fst (apiInvoke_begin ''watch'' [ArgFunction (async_function 5)] createRpcClientHelper))) = []
     \<and> promises
          (onMessage (stub_packr (JArr [JNum 1, JNum RPC_TYPE_RETURN, JStr ''x''])) []
             (fst (apiInvoke_begin ''watch'' [ArgFunction (async_function 5)] createRpcClientHelper))) 0
        = Some (Rejected e)"
proof -
  let ?p = "stub_packr (JArr [JNum 1, JNum RPC_TYPE_RETURN, JStr ''x''])"
  let ?st = "fst (apiInvoke_begin ''watch'' [ArgFunction (async_function 5)] createRpcClientHelper)"
  have h1: "parseRpcData ?p [] = Inr \<lparr>box_id = JNum 1, box_type = JNum RPC_TYPE_RETURN, box_data = JStr ''x''\<rparr>"
    by (simp add: engine_defs)
  have h2: "map_key (box_id \<lparr>box_id = JNum 1, box_type = JNum RPC_TYPE_RETURN, box_data = JStr ''x''\<rparr>) = Some 1"
    by (simp add: map_key_def)
  have h3: "map_of (callbackFunctionMap ?st) 1 = Some (callback_slot 1 5)"
    by (simp add: engine_defs)
  have h4: "(js_eq_num (box_type \<lparr>box_id = JNum 1, box_type = JNum RPC_TYPE_RETURN, box_data = JStr ''x''\<rparr>) RPC_TYPE_CALLBACK
              \<and> callback (callback_slot 1 5) = None)
       \<or> ((js_eq_num (box_type \<lparr>box_id = JNum 1, box_type = JNum RPC_TYPE_RETURN, box_data = JStr ''x''\<rparr>) RPC_TYPE_RETURN
            \<or> js_eq_num (box_type \<lparr>box_id = JNum 1, box_type = JNum RPC_TYPE_RETURN, box_data = JStr ''x''\<rparr>) RPC_TYPE_ERROR)
            \<and> promise (callback_slot 1 5) = None)"
    by (simp add: js_eq_num_def callback_slot_def)
  have w: "map_of (callbackFunctionMap ?st) 0 = Some (result_waiter 0) \<and> promise (result_waiter 0) = Some 0
     \<and> promises ?st 0 = Some Pending"
    by (simp add: engine_defs)
  from onMessage_role_mismatch_fails_all [OF h1 h2 h3 h4] w show ?thesis by blast
qed

text \<open>
  C1, on the code. A waiter is registered under id 0. An ERROR message for id 0 rejects
  its promise with an \<open>RPCError\<close> carrying the remote message and stack, but the entry
  stays in \<open>callbackFunctionMap\<close>: the ERROR branch has no \<open>delete\<close>. A RETURN message for
  the same id removes the entry.
\<close>

theorem onMessage_ERROR_keeps_waiter:
  "map_of (callbackFunctionMap
      (onMessage (stub_packr (JArr [JNum 0, JNum RPC_TYPE_ERROR,
            JObj [(''message'', JStr ''boom''), (''stack'', JStr ''Error: boom at f'')]])) []
         (fst (apiInvoke_begin ''f'' [] createRpcClientHelper)))) 0
     = Some (result_waiter 0)
   \<and> promises
      (onMessage (stub_packr (JArr [JNum 0, JNum RPC_TYPE_ERROR,
            JObj [(''message'', JStr ''boom''), (''stack'', JStr ''Error: boom at f'')]])) []
         (fst (apiInvoke_begin ''f'' [] createRpcClientHelper))) 0
     = Some (Rejected (RPCError (JStr ''boom'') (Some (JStr ''Error: boom at f''))))
   \<and> map_of (callbackFunctionMap
      (onMessage (stub_packr (JArr [JNum 0, JNum RPC_TYPE_RETURN, JStr ''ok''])) []
         (fst (apiInvoke_begin ''f'' [] createRpcClientHelper)))) 0
     = None"
  by (simp add: engine_defs)

section \<open>Cipher state\<close>

text \<open>
  C5 (as the code has it). With the empty pre-key \<open>buildKeyIv\<close> gives no key and no iv, and
  \<open>encrypt\<close> and \<open>decrypt\<close> return the payload unchanged. With a non-empty pre-key the
  helpers' \<open>buildKeyIv(rpcKey, 10)\<close> takes the salt \<open>SHA-512(pre-key)\<close>, derives with
  PBKDF2 (that salt, 10 iterations, SHA-256) a 256-bit AES-GCM key and a 256-bit buffer,
  and every \<open>encrypt\<close> and \<open>decrypt\<close> hands the whole buffer to AES-GCM as the iv.
\<close>

theorem buildKeyIv_cipher_state:
  "buildKeyIv crypto [] iterations = (None, None)
   \<and> encrypt crypto data None None = Inr data
   \<and> decrypt crypto data None None = Inr data
   \<and> (password \<noteq> [] \<longrightarrow>
        (let keyMaterial = subtle_importKey crypto ''raw'' (TextEncoder_encode password) ''PBKDF2'';
             params = \<lparr>pbkdf2_name = ''PBKDF2'',
                       pbkdf2_salt = subtle_digest crypto ''SHA-512'' (TextEncoder_encode password),
                       pbkdf2_iterations = 10, pbkdf2_hash = ''SHA-256''\<rparr>;
             key = subtle_deriveKey crypto params keyMaterial (''AES-GCM'', 256);
             buf = subtle_deriveBits crypto params keyMaterial 256
         in rpc_key_iv crypto password = (Some key, Some buf)
          \<and> encrypt crypto data (Some key) (Some buf)
              = Inr (subtle_encrypt crypto \<lparr>aes_name = ''AES-GCM'', aes_iv = buf\<rparr> key data)
          \<and> decrypt crypto data (Some key) (Some buf)
              = subtle_decrypt crypto \<lparr>aes_name = ''AES-GCM'', aes_iv = buf\<rparr> key data))"
  by (simp add: buildKeyIv_def rpc_key_iv_def encrypt_def decrypt_def JS_RPC_WITH_CRYPTO_def Let_def)

theorem buildKeyIv_cipher_state_witness:
  "rpc_key_iv stub_subtle ''secret'' = (Some (CryptoKey ''AES-GCM'' []), Some (replicate 32 0))
   \<and> encrypt stub_subtle [1, 2] (Some (CryptoKey ''AES-GCM'' [])) (Some (replicate 32 0))
       = Inr (replicate 32 0 @ [1, 2])
   \<and> decrypt stub_subtle (replicate 32 0 @ [1, 2]) (Some (CryptoKey ''AES-GCM'' [])) (Some (replicate 32 0))
       = Inr [1, 2]"
  using buildKeyIv_cipher_state [of stub_subtle 10 "[1, 2]" "''secret''"]
    buildKeyIv_cipher_state [of stub_subtle 10 "replicate 32 0 @ [1, 2]" "''secret''"]
  by (simp add: stub_subtle_def Let_def)

text \<open>
  C5 as stated fails on the iv: the buffer derived for the pre-key \<open>secret\<close> has 32 bytes,
  and the ciphertext \<open>encrypt\<close> returns is the cipher's for that buffer as the iv, not the
  cipher's for the first 12 bytes of it (the stand-in cipher shows the iv it is given).
\<close>

theorem encrypt_iv_is_not_first_12_bytes:
  "rpc_key_iv stub_subtle ''secret'' = (Some (CryptoKey ''AES-GCM'' []), Some (replicate 32 0))
   \<and> encrypt stub_subtle [1, 2] (Some (CryptoKey ''AES-GCM'' [])) (Some (replicate 32 0))
       \<noteq> Inr (subtle_encrypt stub_subtle \<lparr>aes_name = ''AES-GCM'', aes_iv = take 12 (replicate 32 0)\<rparr>
              (CryptoKey ''AES-GCM'' []) [1, 2])
   \<and> length (replicate 32 (0 :: byte)) = 32"
  by (simp add: rpc_key_iv_def buildKeyIv_def encrypt_def JS_RPC_WITH_CRYPTO_def stub_subtle_def Let_def)

section \<open>Reconnect backoff\<close>






section \<open>Message codec round trip\<close>

lemma is_arg_item_cases:
  "is_arg_item v \<Longrightarrow> \<exists>t d. v = JObj [(''type'', t), (''data'', d)]"
  by (induction v rule: is_arg_item.induct) auto

lemma map_result_items:
  "list_all is_arg_item items \<Longrightarrow>
     \<exists>pairs. map_result build_item items = Inr pairs \<and> map_result parse_item pairs = Inr items"
proof (induction items)
  case Nil
  then show ?case by simp
next
  case (Cons x items)
  then obtain pairs where p: "map_result build_item items = Inr pairs" "map_result parse_item pairs = Inr items"
    by auto
  obtain t d where x: "x = JObj [(''type'', t), (''data'', d)]"
    using Cons.prems is_arg_item_cases [of x] by auto
  have b: "build_item x = Inr (JArr [t, d])"
    by (simp add: x build_item_def js_get_def)
  have q: "parse_item (JArr [t, d]) = Inr x"
    by (simp add: x parse_item_def js_iter_def js_nth_def)
  show ?case using p b q by simp
qed

text \<open>
  C3. Let \<open>m = {id, type, data}\<close> be a message whose type is CALL, RETURN, CALLBACK or
  ERROR and whose data, for CALL and CALLBACK, is an array of items \<open>{type: t, data: d}\<close>.
  If the serializer gives back the array \<open>buildRpcData\<close> hands to it (the contract of
  msgpackr, a collaborator), then \<open>buildRpcData\<close> succeeds and \<open>parseRpcData\<close> of its
  result is \<open>m\<close>.
\<close>

theorem parseRpcData_buildRpcData:
  assumes "box_type m \<in> {JNum RPC_TYPE_CALL, JNum RPC_TYPE_RETURN, JNum RPC_TYPE_CALLBACK, JNum RPC_TYPE_ERROR}"
    and "box_type m \<in> {JNum RPC_TYPE_CALL, JNum RPC_TYPE_CALLBACK} \<longrightarrow>
           (\<exists>items. box_data m = JArr items \<and> list_all is_arg_item items)"
    and "\<forall>v. buildRpcData_triple m = Inr v \<longrightarrow> unpack packr (pack packr v) = Inr v"
  shows "\<exists>buffer. buildRpcData packr m = Inr buffer \<and> parseRpcData packr buffer = Inr (m :: RPC_DATA)"
proof (cases "box_type m \<in> {JNum RPC_TYPE_CALL, JNum RPC_TYPE_CALLBACK}")
  case True
  then obtain items where i: "box_data m = JArr items" "list_all is_arg_item items"
    using assms(2) by blast
  obtain pairs where p: "map_result build_item items = Inr pairs" "map_result parse_item pairs = Inr items"
    using map_result_items [OF i(2)] by blast
  have c: "js_eq_num (box_type m) RPC_TYPE_CALL \<or> js_eq_num (box_type m) RPC_TYPE_CALLBACK"
    using True by (auto simp: js_eq_num_def)
  have t: "buildRpcData_triple m = Inr (JArr [box_id m, box_type m, JArr pairs])"
    using c i(1) p(1) by (simp add: buildRpcData_triple_def Let_def)
  have u: "unpack packr (pack packr (JArr [box_id m, box_type m, JArr pairs]))
         = Inr (JArr [box_id m, box_type m, JArr pairs])"
    using assms(3) t by blast
  have "parseRpcData packr (pack packr (JArr [box_id m, box_type m, JArr pairs])) = Inr m"
    using c p(2) i(1) by (simp add: parseRpcData_def u js_iter_def js_nth_def Let_def)
  then show ?thesis by (simp add: buildRpcData_def t)
next
  case False
  then have c: "\<not> (js_eq_num (box_type m) RPC_TYPE_CALL \<or> js_eq_num (box_type m) RPC_TYPE_CALLBACK)"
    using assms(1)
    by (auto simp: js_eq_num_def RPC_TYPE_CALL_def RPC_TYPE_RETURN_def RPC_TYPE_CALLBACK_def RPC_TYPE_ERROR_def)
  have t: "buildRpcData_triple m = Inr (JArr [box_id m, box_type m, box_data m])"
    using c by (simp add: buildRpcData_triple_def Let_def)
  have u: "unpack packr (pack packr (JArr [box_id m, box_type m, box_data m]))
         = Inr (JArr [box_id m, box_type m, box_data m])"
    using assms(3) t by blast
  have "parseRpcData packr (pack packr (JArr [box_id m, box_type m, box_data m])) = Inr m"
    using c by (simp add: parseRpcData_def u js_iter_def js_nth_def Let_def)
  then show ?thesis by (simp add: buildRpcData_def t)
qed

theorem parseRpcData_buildRpcData_witness:
  "\<exists>buffer.
     buildRpcData
       (stub_packr (JArr [JNum 7, JNum RPC_TYPE_CALL,
          JArr [JArr [JNum RPC_DATA_ARG_TYPE_OTHERS, JStr ''hello''],
                JArr [JNum RPC_DATA_ARG_TYPE_FUNCTION, JNum 8]]]))
       \<lparr>box_id = JNum 7, box_type = JNum RPC_TYPE_CALL,
        box_data = JArr [JObj [(''type'', JNum RPC_DATA_ARG_TYPE_OTHERS), (''data'', JStr ''hello'')],
                         JObj [(''type'', JNum RPC_DATA_ARG_TYPE_FUNCTION), (''data'', JNum 8)]]\<rparr>
       = Inr buffer
     \<and> parseRpcData
       (stub_packr (JArr [JNum 7, JNum RPC_TYPE_CALL,
          JArr [JArr [JNum RPC_DATA_ARG_TYPE_OTHERS, JStr ''hello''],
                JArr [JNum RPC_DATA_ARG_TYPE_FUNCTION, JNum 8]]])) buffer
       = Inr \<lparr>box_id = JNum 7, box_type = JNum RPC_TYPE_CALL,
        box_data = JArr [JObj [(''type'', JNum RPC_DATA_ARG_TYPE_OTHERS), (''data'', JStr ''hello'')],
                         JObj [(''type'', JNum RPC_DATA_ARG_TYPE_FUNCTION), (''data'', JNum 8)]]\<rparr>"
  using parseRpcData_buildRpcData
    [of "\<lparr>box_id = JNum 7, box_type = JNum RPC_TYPE_CALL,
        box_data = JArr [JObj [(''type'', JNum RPC_DATA_ARG_TYPE_OTHERS), (''data'', JStr ''hello'')],
                         JObj [(''type'', JNum RPC_DATA_ARG_TYPE_FUNCTION), (''data'', JNum 8)]]\<rparr>"
        "stub_packr (JArr [JNum 7, JNum RPC_TYPE_CALL,
          JArr [JArr [JNum RPC_DATA_ARG_TYPE_OTHERS, JStr ''hello''],
                JArr [JNum RPC_DATA_ARG_TYPE_FUNCTION, JNum 8]]])"]
  by (simp add: buildRpcData_triple_def build_item_def js_get_def js_eq_num_def stub_packr_def Let_def)

section \<open>Frame codec round trip\<close>

lemma ff_mask: "(0xff :: 32 word) = mask 8"
  by (simp add: mask_eq_exp_minus_1)

lemma write_byte: "k \<le> 24 \<Longrightarrow> (ucast (signed_drop_bit k (word_of_nat n :: 32 word) AND 0xff) :: byte) = word_of_nat (n div 2^k)"
  unfolding ff_mask drop_bit_eq_div [symmetric]
  by (rule bit_word_eqI) (auto simp: bit_simps)

lemma write_byte0: "(ucast ((word_of_nat n :: 32 word) AND 0xff) :: byte) = word_of_nat n"
  using write_byte [of 0 n] by simp

lemma byte_and_ff: "(ucast (b::byte) AND 0xff :: 32 word) = ucast b"
  unfolding ff_mask by (rule bit_word_eqI) (auto simp: bit_simps dest: bit_imp_le_length)

lemma read_word: 
  "(ucast (word_of_nat n :: byte)
          OR push_bit 8 (ucast (word_of_nat (n div 2 ^ 8) :: byte))
          OR push_bit 16 (ucast (word_of_nat (n div 2 ^ 16) :: byte))
          OR push_bit 24 (ucast (word_of_nat (n div 2 ^ 24) :: byte))) = (word_of_nat n :: 32 word)"
  unfolding drop_bit_eq_div [symmetric]
proof (rule bit_word_eqI)
  fix i :: nat assume i: "i < LENGTH(32)"
  consider "i < 8" | "8 \<le> i" "i < 16" | "16 \<le> i" "i < 24" | "24 \<le> i" "i < 32"
    using i by fastforce
  then show "bit (ucast (word_of_nat n :: byte) OR
             push_bit 8 (ucast (word_of_nat (drop_bit 8 n) :: byte)) OR
             push_bit 16 (ucast (word_of_nat (drop_bit 16 n):: byte)) OR
             push_bit 24 (ucast (word_of_nat (drop_bit 24 n):: byte)) :: 32 word)
             i = bit (word_of_nat n :: 32 word) i"
    by cases (auto simp: bit_simps)
qed

lemma readUInt32LE_le32:
  "readUInt32LE (pre @ le32 n @ post) (length pre) = Inr (n mod 2 ^ 32)"
  using read_word [of n]
  by (simp add: readUInt32LE_def le32_def nth_append byte_and_ff unat_of_nat)


lemma replicate8: "replicate 8 (0 :: byte) = [0, 0, 0, 0, 0, 0, 0, 0]"
  by (simp add: numeral_eq_Suc)

lemma buildHeader_le32: "buildHeader n = Inr (le32 n @ le32 HEADER_CHECK)"
  unfolding buildHeader_def replicate8
  by (simp add: writeUInt32LE_def le32_def Let_def write_byte write_byte0)


lemma length_le32 [simp]: "length (le32 n) = 4"
  by (simp add: le32_def)

lemma length_frame [simp]: "length (frame c) = 8 + length c"
  by (simp add: frame_def)

lemma drop8_frame [simp]: "drop 8 (frame c) = c"
  by (simp add: frame_def)

lemma HEADER_CHECK_less: "HEADER_CHECK < 4294967296"
  by (simp add: HEADER_CHECK_def)

lemma read_frame_length:
  assumes "length c < 2 ^ 32"
  shows "readUInt32LE (pre @ le32 (length c) @ le32 HEADER_CHECK @ rest) (length pre) = Inr (length c)"
  using readUInt32LE_le32 [of pre "length c" "le32 HEADER_CHECK @ rest"] assms by simp

lemma read_frame_check:
  "readUInt32LE (pre @ le32 n @ le32 HEADER_CHECK @ rest) (length pre + 4) = Inr HEADER_CHECK"
proof -
  have "readUInt32LE ((pre @ le32 n) @ le32 HEADER_CHECK @ rest) (length (pre @ le32 n))
      = Inr (HEADER_CHECK mod 2 ^ 32)"
    by (rule readUInt32LE_le32)
  then show ?thesis using HEADER_CHECK_less by simp
qed

lemma parse_step:
  assumes "length c < 2 ^ 32" and "decrypt crypto c key iv = Inr r"
  shows "parseBufferData_loop crypto (pre @ frame c @ post) key iv (length pre) q =
         parseBufferData_loop crypto (pre @ frame c @ post) key iv (length pre + 8 + length c) (q @ [r])"
proof -
  have r1: "readUInt32LE (pre @ frame c @ post) (length pre) = Inr (length c)"
    using read_frame_length [OF assms(1), of pre "c @ post"] by (simp add: frame_def)
  have r2: "readUInt32LE (pre @ frame c @ post) (length pre + 4) = Inr HEADER_CHECK"
    using read_frame_check [of pre "length c" "c @ post"] by (simp add: frame_def)
  have d: "take (length c) (drop (length pre + 8) (pre @ frame c @ post)) = c"
    by (simp add: frame_def)
  show ?thesis
    by (subst parseBufferData_loop.simps) (simp add: r1 r2 d assms(2))
qed


lemma parse_tail:
  assumes "length c < 2 ^ 32" and "t @ s = frame c" and "s \<noteq> []"
  shows "parseBufferData_loop crypto (pre @ t) key iv (length pre) q = Inr (q, t, [])"
proof (cases "length t < 8")
  case True
  then show ?thesis by (subst parseBufferData_loop.simps) simp
next
  case False
  have "take (length t) (t @ s) = t" by simp
  then have "t = take (length t) (frame c)" using assms(2) by simp
  then have t: "t = le32 (length c) @ le32 HEADER_CHECK @ take (length t - 8) c"
    using False by (simp add: frame_def)
  have "length t + length s = 8 + length c"
    using arg_cong [OF assms(2), of length] by simp
  then have lt: "length t < 8 + length c"
    using assms(3) by (cases s) auto
  have r1: "readUInt32LE (pre @ t) (length pre) = Inr (length c)"
    using read_frame_length [OF assms(1), of pre "take (length t - 8) c"] t by simp
  have r2: "readUInt32LE (pre @ t) (length pre + 4) = Inr HEADER_CHECK"
    using read_frame_check [of pre "length c" "take (length t - 8) c"] t by simp
  show ?thesis
    using False lt by (subst parseBufferData_loop.simps) (simp add: r1 r2)
qed

lemma parse_end:
  "parseBufferData_loop crypto pre key iv (length pre) q = Inr (q, [], [])"
  by (subst parseBufferData_loop.simps) simp

lemma parse_frames:
  assumes "\<forall>r\<in>set rs. length (E r) < 2 ^ 32 \<and> decrypt crypto (E r) key iv = Inr r"
    and "t = [] \<or> (\<exists>c s. length c < 2 ^ 32 \<and> t @ s = frame c \<and> s \<noteq> [])"
  shows "parseBufferData_loop crypto (pre @ concat (map (\<lambda>r. frame (E r)) rs) @ t) key iv (length pre) q
         = Inr (q @ rs, t, [])"
  using assms
proof (induction rs arbitrary: pre q)
  case Nil
  show ?case
  proof (cases "t = []")
    case True
    then show ?thesis using parse_end [of crypto pre key iv q] by simp
  next
    case False
    then obtain c s where "length c < 2 ^ 32" "t @ s = frame c" "s \<noteq> []"
      using Nil.prems(2) by blast
    then show ?thesis using parse_tail [of c t s crypto pre key iv q] by simp
  qed
next
  case (Cons r rs)
  let ?rest = "concat (map (\<lambda>r. frame (E r)) rs) @ t"
  have g: "length (E r) < 2 ^ 32" "decrypt crypto (E r) key iv = Inr r"
    using Cons.prems(1) by auto
  have "parseBufferData_loop crypto (pre @ frame (E r) @ ?rest) key iv (length pre) q
      = parseBufferData_loop crypto (pre @ frame (E r) @ ?rest) key iv (length pre + 8 + length (E r)) (q @ [r])"
    by (rule parse_step [OF g])
  also have "\<dots> = parseBufferData_loop crypto ((pre @ frame (E r)) @ ?rest) key iv
        (length (pre @ frame (E r))) (q @ [r])"
    by (simp add: add.assoc)
  also have "\<dots> = Inr ((q @ [r]) @ rs, t, [])"
    using Cons.IH [of "pre @ frame (E r)" "q @ [r]"] Cons.prems by simp
  finally show ?case by simp
qed

lemma frames_split:
  assumes "P @ S = concat (map F rs)" and "\<forall>r\<in>set rs. F r \<noteq> []"
  shows "\<exists>rs1 rs2 t. rs = rs1 @ rs2 \<and> P = concat (map F rs1) @ t
           \<and> (t = [] \<or> (rs2 \<noteq> [] \<and> (\<exists>s. s \<noteq> [] \<and> t @ s = F (hd rs2))))
           \<and> t @ S = concat (map F rs2)"
  using assms
proof (induction rs arbitrary: P)
  case Nil
  then show ?case by simp
next
  case (Cons r rs)
  show ?case
  proof (cases "length P < length (F r)")
    case True
    have "take (length P) (P @ S) = P" by simp
    then have p: "P = take (length P) (F r)"
      using Cons.prems(1) True by simp
    have "P @ drop (length P) (F r) = F r" using p by (metis append_take_drop_id)
    moreover have "drop (length P) (F r) \<noteq> []" using True by simp
    ultimately have e: "\<exists>s. s \<noteq> [] \<and> P @ s = F (hd (r # rs))"
      by (intro exI [of _ "drop (length P) (F r)"]) simp
    have "r # rs = [] @ (r # rs) \<and> P = concat (map F []) @ P
           \<and> (P = [] \<or> ((r # rs) \<noteq> [] \<and> (\<exists>s. s \<noteq> [] \<and> P @ s = F (hd (r # rs)))))
           \<and> P @ S = concat (map F (r # rs))"
      using Cons.prems(1) e by simp
    then show ?thesis by blast
  next
    case False
    have "take (length (F r)) (P @ S) = F r" using Cons.prems(1) by simp
    then have f: "take (length (F r)) P = F r" using False by simp
    define P' where "P' = drop (length (F r)) P"
    have P: "P = F r @ P'" using f by (metis P'_def append_take_drop_id)
    then have "P' @ S = concat (map F rs)" using Cons.prems(1) by simp
    then obtain rs1 rs2 t where ih: "rs = rs1 @ rs2" "P' = concat (map F rs1) @ t"
        "t = [] \<or> (rs2 \<noteq> [] \<and> (\<exists>s. s \<noteq> [] \<and> t @ s = F (hd rs2)))"
        "t @ S = concat (map F rs2)"
      using Cons.IH [of P'] Cons.prems(2) by auto
    have "r # rs = (r # rs1) @ rs2 \<and> P = concat (map F (r # rs1)) @ t
           \<and> (t = [] \<or> (rs2 \<noteq> [] \<and> (\<exists>s. s \<noteq> [] \<and> t @ s = F (hd rs2))))
           \<and> t @ S = concat (map F rs2)"
      using ih P by simp
    then show ?thesis by blast
  qed
qed

lemma decode_run_frames:
  assumes "\<forall>r\<in>set rs. length (E r) < 2 ^ 32 \<and> decrypt crypto (E r) key iv = Inr r"
    and "t = [] \<or> (rs \<noteq> [] \<and> (\<exists>s. s \<noteq> [] \<and> t @ s = frame (E (hd rs))))"
    and "t @ concat chunks = concat (map (\<lambda>r. frame (E r)) rs)"
  shows "createDecodeStream_run crypto key iv t chunks enq = Inr (enq @ rs, [])"
  using assms
proof (induction chunks arbitrary: t rs enq)
  case Nil
  have "rs = [] \<and> t = []"
  proof (cases rs)
    case Nil
    then show ?thesis using Nil.prems(3) by simp
  next
    case (Cons r rs')
    have l: "length t = 8 + length (E r) + length (concat (map (\<lambda>r. frame (E r)) rs'))"
      using arg_cong [OF Nil.prems(3), of length] Cons by simp
    have "t \<noteq> []" using l by auto
    then obtain s where s: "s \<noteq> []" "t @ s = frame (E r)" using Nil.prems(2) Cons by auto
    have "length t + length s = 8 + length (E r)"
      using arg_cong [OF s(2), of length] by simp
    then have False using l s(1) by (cases s) auto
    then show ?thesis ..
  qed
  then show ?case by simp
next
  case (Cons chunk chunks)
  let ?F = "\<lambda>r. frame (E r)"
  have ne: "\<forall>r\<in>set rs. ?F r \<noteq> []"
  proof
    fix r assume "r \<in> set rs"
    have "length (?F r) = 8 + length (E r)" by simp
    then show "?F r \<noteq> []" by (metis add_is_0 length_0_conv zero_neq_numeral)
  qed
  have eq: "(t @ chunk) @ concat chunks = concat (map ?F rs)"
    using Cons.prems(3) by simp
  obtain a b t' where ab: "rs = a @ b" "t @ chunk = concat (map ?F a) @ t'"
      "t' = [] \<or> (b \<noteq> [] \<and> (\<exists>s. s \<noteq> [] \<and> t' @ s = ?F (hd b)))"
      "t' @ concat chunks = concat (map ?F b)"
    using frames_split [OF eq ne] by blast
  have ga: "\<forall>r\<in>set a. length (E r) < 2 ^ 32 \<and> decrypt crypto (E r) key iv = Inr r"
    and gb: "\<forall>r\<in>set b. length (E r) < 2 ^ 32 \<and> decrypt crypto (E r) key iv = Inr r"
    using Cons.prems(1) ab(1) by auto
  have tail: "t' = [] \<or> (\<exists>c s. length c < 2 ^ 32 \<and> t' @ s = frame c \<and> s \<noteq> [])"
  proof (cases "t' = []")
    case True
    then show ?thesis by simp
  next
    case False
    then obtain s where s: "b \<noteq> []" "s \<noteq> []" "t' @ s = frame (E (hd b))"
      using ab(3) by auto
    have "length (E (hd b)) < 2 ^ 32" using gb s(1) by simp
    then show ?thesis using s by blast
  qed
  have "parseBufferData_loop crypto ([] @ concat (map ?F a) @ t') key iv (length ([] :: Uint8Array)) []
      = Inr ([] @ a, t', [])"
    by (rule parse_frames [OF ga tail])
  then have p: "parseBufferData crypto (Uint8Array_concat [t, chunk]) key iv = Inr (a, t', [])"
    using ab(2) by (simp add: parseBufferData_def Uint8Array_concat_def)
  have "createDecodeStream_run crypto key iv t' chunks (enq @ a) = Inr ((enq @ a) @ b, [])"
    by (rule Cons.IH [OF gb ab(3) ab(4)])
  then show ?case using p ab(1) by simp
qed

lemma buildBufferData_loop_frames:
  assumes "\<forall>r\<in>set rs. encrypt crypto r key iv = Inr (E r)"
  shows "buildBufferData_loop crypto rs key iv acc
       = Inr (acc @ concat (map (\<lambda>r. [le32 (length (E r)) @ le32 HEADER_CHECK, E r]) rs))"
  using assms by (induction rs arbitrary: acc) (simp_all add: buildHeader_le32)

lemma concat_frames:
  "concat (concat (map (\<lambda>r. [le32 (length (E r)) @ le32 HEADER_CHECK, E r]) rs))
     = concat (map (\<lambda>r. frame (E r)) rs)"
  by (induction rs) (simp_all add: frame_def)

lemma buildBufferData_frames:
  assumes "\<forall>r\<in>set rs. encrypt crypto r key iv = Inr (E r)"
  shows "buildBufferData crypto rs key iv = Inr (concat (map (\<lambda>r. frame (E r)) rs))"
  using buildBufferData_loop_frames [OF assms, of "[]"]
  by (simp add: buildBufferData_def Uint8Array_concat_def concat_frames)

lemma createEncodeStream_run_frames:
  assumes "\<forall>r\<in>set rs. encrypt crypto r key iv = Inr (E r)"
  shows "createEncodeStream_run crypto key iv rs = Inr (map (\<lambda>r. frame (E r)) rs)"
  using assms
proof (induction rs)
  case Nil
  then show ?case by simp
next
  case (Cons r rs)
  have "buildBufferData crypto [r] key iv = Inr (concat (map (\<lambda>r. frame (E r)) [r]))"
    by (rule buildBufferData_frames) (use Cons.prems in simp)
  then show ?case using Cons by simp
qed

text \<open>
  C2 (as the code has it). Take payload records whose encrypted form is shorter than
  \<open>2 ^ 32\<close> bytes and is decrypted to the record again (with no key the encrypted form
  is the record itself). Then the encode stream frames them, \<open>buildBufferData\<close> of the
  whole queue gives the same bytes, and for every way of cutting these bytes into chunks
  (empty chunks included) the decode stream enqueues exactly the records, in order, and
  ends with an empty carry.
\<close>

theorem createDecodeStream_roundtrip:
  assumes "\<forall>r\<in>set records. \<exists>c. encrypt crypto r key iv = Inr c \<and> length c < 2 ^ 32
             \<and> decrypt crypto c key iv = Inr r"
  shows "\<exists>encoded. createEncodeStream_run crypto key iv records = Inr encoded
           \<and> buildBufferData crypto records key iv = Inr (concat encoded)
           \<and> (\<forall>chunks. concat chunks = concat encoded \<longrightarrow>
                 createDecodeStream crypto key iv chunks = Inr (records, []))"
proof -
  obtain E where E: "\<forall>r\<in>set records. encrypt crypto r key iv = Inr (E r) \<and> length (E r) < 2 ^ 32
             \<and> decrypt crypto (E r) key iv = Inr r"
    using bchoice [OF assms] by blast
  let ?enc = "map (\<lambda>r. frame (E r)) records"
  have e1: "createEncodeStream_run crypto key iv records = Inr ?enc"
    by (rule createEncodeStream_run_frames) (use E in simp)
  have e2: "buildBufferData crypto records key iv = Inr (concat ?enc)"
    by (rule buildBufferData_frames) (use E in simp)
  have g: "\<forall>r\<in>set records. length (E r) < 2 ^ 32 \<and> decrypt crypto (E r) key iv = Inr r"
    using E by simp
  have "createDecodeStream crypto key iv chunks = Inr (records, [])"
    if "concat chunks = concat ?enc" for chunks
    using decode_run_frames [OF g, of "[]" chunks "[]"] that
    by (simp add: createDecodeStream_def)
  then show ?thesis using e1 e2 by blast
qed

lemma le32_0: "le32 0 @ le32 0 = replicate 8 0"
  by (simp add: le32_def replicate8)

lemma replicate_zero_header:
  assumes "8 \<le> n"
  shows "replicate n (0 :: byte) = le32 0 @ le32 0 @ replicate (n - 8) 0"
proof -
  have "replicate n (0 :: byte) = replicate (8 + (n - 8)) 0" using assms by simp
  also have "\<dots> = replicate 8 0 @ replicate (n - 8) 0" by (rule replicate_add)
  finally show ?thesis using le32_0 by simp
qed

lemma parse_overlong:
  assumes "n mod 2 ^ 32 = 0" and "8 \<le> n"
  shows "parseBufferData stub_subtle (frame (replicate n 0)) None None
       = Inr ([[]], [], [DataCheckError 0 0])"
proof -
  let ?z = "replicate n (0 :: byte)"
  let ?b = "frame ?z"
  have len: "length ?b = 8 + n" by simp
  have r1: "readUInt32LE ?b 0 = Inr 0"
    using readUInt32LE_le32 [of "[]" n "le32 HEADER_CHECK @ ?z"] assms(1) by (simp add: frame_def)
  have r2: "readUInt32LE ?b 4 = Inr HEADER_CHECK"
    using read_frame_check [of "[]" n ?z] by (simp add: frame_def)
  have b: "?b = (le32 n @ le32 HEADER_CHECK) @ le32 0 @ le32 0 @ replicate (n - 8) 0"
    using replicate_zero_header [OF assms(2)] assms(2) by (simp add: frame_def)
  have r3: "readUInt32LE ?b 8 = Inr 0"
    using readUInt32LE_le32 [of "le32 n @ le32 HEADER_CHECK" 0 "le32 0 @ replicate (n - 8) 0"]
    by (simp only: b) simp
  have r4: "readUInt32LE ?b 12 = Inr 0"
    using readUInt32LE_le32 [of "(le32 n @ le32 HEADER_CHECK) @ le32 0" 0 "replicate (n - 8) 0"]
    by (simp only: b) simp
  have d: "decrypt stub_subtle [] None None = Inr []" by (simp add: decrypt_def)
  have s1: "parseBufferData_loop stub_subtle ?b None None 0 []
          = parseBufferData_loop stub_subtle ?b None None 8 [[]]"
    by (subst parseBufferData_loop.simps) (simp add: r1 r2 d len del: length_frame)
  have s2: "parseBufferData_loop stub_subtle ?b None None 8 [[]] = Inr ([[]], [], [DataCheckError 0 0])"
    using assms(2)
    by (subst parseBufferData_loop.simps) (simp add: r3 r4 len HEADER_CHECK_def del: length_frame)
  show ?thesis by (simp only: parseBufferData_def s1 s2)
qed

lemma decode_overlong:
  assumes "n mod 2 ^ 32 = 0" and "8 \<le> n"
  shows "createDecodeStream stub_subtle None None [frame (replicate n 0)] = Inr ([[]], [])"
  using parse_overlong [OF assms]
  by (simp add: createDecodeStream_def Uint8Array_concat_def)

lemma encode_plain:
  "createEncodeStream_run stub_subtle None None [r] = Inr [frame r]"
  using createEncodeStream_run_frames [of "[r]" stub_subtle None None "\<lambda>r. r"]
  by (simp add: encrypt_def)

lemma not_empty_record: "n \<noteq> 0 \<Longrightarrow> [[]] \<noteq> [replicate n (x :: byte)]"
  by simp

text \<open>
  C2 as stated fails for a record the 4-byte length field cannot hold. A record of
  \<open>2 ^ 32\<close> zero bytes is framed with the length field 0; the decoder then emits one empty
  record, reads the next 8 zero bytes as a header with a wrong check value, and discards
  the rest: the record enqueued is not the record written.
\<close>

theorem createDecodeStream_overlong_record:
  "createEncodeStream_run stub_subtle None None [replicate 4294967296 0]
     = Inr [frame (replicate 4294967296 0)]
   \<and> createDecodeStream stub_subtle None None [frame (replicate 4294967296 0)] = Inr ([[]], [])
   \<and> [[]] \<noteq> [replicate 4294967296 (0 :: byte)]"
proof (intro conjI)
  show "createEncodeStream_run stub_subtle None None [replicate 4294967296 0]
     = Inr [frame (replicate 4294967296 0)]"
    by (rule encode_plain)
  show "createDecodeStream stub_subtle None None [frame (replicate 4294967296 0)] = Inr ([[]], [])"
    by (rule decode_overlong) simp_all
  show "[[]] \<noteq> [replicate 4294967296 (0 :: byte)]"
    by (rule not_empty_record) simp
qed

theorem createDecodeStream_roundtrip_witness:
  "createEncodeStream_run stub_subtle None None [[1, 2], [3]]
     = Inr [[2, 0, 0, 0, 95, 112, 247, 177, 1, 2], [1, 0, 0, 0, 95, 112, 247, 177, 3]]
   \<and> createDecodeStream stub_subtle None None
       [[2, 0, 0], [0, 95, 112, 247, 177, 1, 2, 1, 0], [], [0, 0, 95, 112, 247, 177, 3]]
     = Inr ([[1, 2], [3]], [])"
proof -
  have h: "\<forall>r\<in>set [[1, 2], [3 :: byte]]. \<exists>c. encrypt stub_subtle r None None = Inr c \<and> length c < 2 ^ 32
             \<and> decrypt stub_subtle c None None = Inr r"
    by (simp add: encrypt_def decrypt_def)
  have e: "createEncodeStream_run stub_subtle None None [[1, 2], [3]]
     = Inr [[2, 0, 0, 0, 95, 112, 247, 177, 1, 2], [1, 0, 0, 0, 95, 112, 247, 177, 3]]"
    by (simp add: buildBufferData_def buildHeader_le32 le32_def HEADER_CHECK_def encrypt_def
        Uint8Array_concat_def)
  obtain encoded where enc: "createEncodeStream_run stub_subtle None None [[1, 2], [3]] = Inr encoded"
    and dec: "\<forall>chunks. concat chunks = concat encoded \<longrightarrow>
                 createDecodeStream stub_subtle None None chunks = Inr ([[1, 2], [3]], [])"
    using createDecodeStream_roundtrip [OF h] by blast
  have "encoded = [[2, 0, 0, 0, 95, 112, 247, 177, 1, 2], [1, 0, 0, 0, 95, 112, 247, 177, 3]]"
    using enc e by simp
  then have "createDecodeStream stub_subtle None None
       [[2, 0, 0], [0, 95, 112, 247, 177, 1, 2, 1, 0], [], [0, 0, 95, 112, 247, 177, 3]]
     = Inr ([[1, 2], [3]], [])"
    using dec [rule_format, of "[[2, 0, 0], [0, 95, 112, 247, 177, 1, 2, 1, 0], [], [0, 0, 95, 112, 247, 177, 3]]"]
    by simp
  then show ?thesis using e by simp
qed

end
